theory Spec2Isabelle
  imports Main
begin

section \<open>Syntax nodes\<close>

text \<open>
  The nodes come from the parser library the program imports (pylatexenc.latexwalker); the
  program names six node classes in its \<open>LatexNodeType\<close> union, and those are the
  constructors here. Each constructor carries the attributes of the class the program or
  its specification speaks about: the macro name and the argument nodes of a macro node,
  the environment name, body and argument nodes of an environment node, the body of a
  math node and of a group node, the text of a character run and of a specials node.
  The program itself reads only \<open>macroname\<close> and \<open>nodelist\<close>.
\<close>

datatype node =
    LatexMathNode (displaytype: string) (nodelist: "node list")
  | LatexMacroNode (macroname: string) (nodeargs: "node list")
  | LatexGroupNode (nodelist: "node list")
  | LatexSpecialsNode (specials_chars: string)
  | LatexCharsNode (chars: string)
  | LatexEnvironmentNode (environmentname: string) (nodelist: "node list") (nodeargs: "node list")

text \<open>\<open>is_macro\<close>: \<open>node.isNodeType(LatexMacroNode)\<close>.\<close>

fun is_macro :: "node \<Rightarrow> bool" where
  "is_macro (LatexMacroNode _ _) = True"
| "is_macro _ = False"

text \<open>\<open>has_nodelist\<close>: \<open>node.isNodeType(LatexMathNode) or node.isNodeType(LatexEnvironmentNode)\<close>.\<close>

fun has_nodelist :: "node \<Rightarrow> bool" where
  "has_nodelist (LatexMathNode _ _) = True"
| "has_nodelist (LatexEnvironmentNode _ _ _) = True"
| "has_nodelist _ = False"

section \<open>The macro collector\<close>

text \<open>
  \<open>get_macros\<close>: the early return on an empty list, then the \<open>for\<close> loop over the
  list as a \<open>fold\<close> whose accumulator is the set \<open>macros\<close>, starting empty. A macro
  node adds its name, a node with a node list merges in the result of the recursive call
  on that list, any other node leaves the set as it is. The recursion is not structural
  (the call is on \<open>nodelist node\<close>), so termination is proved with the size of the list
  as the measure.
\<close>

function get_macros :: "node list \<Rightarrow> string set" where
  "get_macros node_list =
     (if node_list = [] then {}
      else fold (\<lambda>node macros.
                   if is_macro node then insert (macroname node) macros
                   else if has_nodelist node then macros \<union> get_macros (nodelist node)
                   else macros)
             node_list {})"
  by pat_completeness auto
termination
proof (relation "measure (size_list size)")
  show "wf (measure (size_list size))" by simp
next
  fix node_list :: "node list" and node :: node
  assume in_list: "node \<in> set node_list" and descend: "has_nodelist node"
  from descend have "size_list size (nodelist node) < size node"
    by (cases node) simp_all
  moreover from in_list have "size node \<le> size_list size node_list"
    by (simp add: size_list_estimation')
  ultimately show "(nodelist node, node_list) \<in> measure (size_list size)" by simp
qed

text \<open>What one pass of the loop body adds to \<open>macros\<close> for a node.\<close>

definition node_macros :: "node \<Rightarrow> string set" where
  "node_macros node =
     (if is_macro node then {macroname node}
      else if has_nodelist node then get_macros (nodelist node)
      else {})"

subsection \<open>The reference definition of the specification\<close>

text \<open>
  Written from the specification's words, to be compared with \<open>get_macros\<close>: the empty
  list gives the empty set; otherwise each node contributes its name if it is a macro
  node, the macros collected from its child list if it is a math or environment node,
  and nothing otherwise; the contributions are merged by union.
\<close>

fun get_macros_ref :: "node list \<Rightarrow> string set"
  and node_contribution :: "node \<Rightarrow> string set" where
  "get_macros_ref [] = {}"
| "get_macros_ref (node # rest) = node_contribution node \<union> get_macros_ref rest"
| "node_contribution (LatexMacroNode name args) = {name}"
| "node_contribution (LatexMathNode d body) = get_macros_ref body"
| "node_contribution (LatexEnvironmentNode name body args) = get_macros_ref body"
| "node_contribution (LatexGroupNode body) = {}"
| "node_contribution (LatexSpecialsNode s) = {}"
| "node_contribution (LatexCharsNode s) = {}"

subsection \<open>The macro nodes of a tree\<close>

text \<open>
  \<open>macro_nodes\<close> lists the name of every macro node of a subtree, one entry per node,
  wherever it lies: in a math or environment body, in a group, or among the arguments of
  a macro or an environment. \<open>visited_macro_nodes\<close> lists only those that lie at the top
  or inside math and environment bodies, which are the lists the collector walks.
\<close>

fun macro_nodes :: "node \<Rightarrow> string list" where
  "macro_nodes (LatexMathNode d body) = concat (map macro_nodes body)"
| "macro_nodes (LatexMacroNode name args) = name # concat (map macro_nodes args)"
| "macro_nodes (LatexGroupNode body) = concat (map macro_nodes body)"
| "macro_nodes (LatexSpecialsNode s) = []"
| "macro_nodes (LatexCharsNode s) = []"
| "macro_nodes (LatexEnvironmentNode name body args) =
     concat (map macro_nodes args) @ concat (map macro_nodes body)"

definition tree_macro_nodes :: "node list \<Rightarrow> string list" where
  "tree_macro_nodes node_list = concat (map macro_nodes node_list)"

fun visited_macro_nodes :: "node \<Rightarrow> string list" where
  "visited_macro_nodes (LatexMathNode d body) = concat (map visited_macro_nodes body)"
| "visited_macro_nodes (LatexMacroNode name args) = [name]"
| "visited_macro_nodes (LatexGroupNode body) = []"
| "visited_macro_nodes (LatexSpecialsNode s) = []"
| "visited_macro_nodes (LatexCharsNode s) = []"
| "visited_macro_nodes (LatexEnvironmentNode name body args) =
     concat (map visited_macro_nodes body)"

definition tree_visited_macro_nodes :: "node list \<Rightarrow> string list" where
  "tree_visited_macro_nodes node_list = concat (map visited_macro_nodes node_list)"

section \<open>The set cleaner\<close>

text \<open>
  Python's \<open>str.strip()\<close> without argument removes leading and trailing whitespace. A
  \<open>char\<close> here is a code point below 256; in that range \<open>str.isspace\<close> holds of
  U+0009 to U+000D, U+001C to U+0020, U+0085 and U+00A0.
\<close>

definition isspace :: "char \<Rightarrow> bool" where
  "isspace c =
     (let n = (of_char c :: nat)
      in (9 \<le> n \<and> n \<le> 13) \<or> (28 \<le> n \<and> n \<le> 32) \<or> n = 133 \<or> n = 160)"

definition strip :: "string \<Rightarrow> string" where
  "strip s = rev (dropWhile isspace (rev (dropWhile isspace s)))"

text \<open>\<open>problem_list\<close>: the six one-character strings; the last is the backslash.\<close>

definition problem_list :: "string list" where
  "problem_list = [''{'', ''}'', ''t'', ''n'', ''&'', [CHR 0x5C]]"

text \<open>
  \<open>final_clean\<close>: the set comprehension; \<open>item.strip()\<close> is true when the stripped
  string is not empty, \<open>item not in problem_list\<close> compares whole strings.
\<close>

definition final_clean :: "string set \<Rightarrow> string set" where
  "final_clean macros = {item \<in> macros. strip item \<noteq> [] \<and> item \<notin> set problem_list}"

subsection \<open>The names the parser yields\<close>

text \<open>
  The macro names reach the program from the parser library. Its tokenizer takes as the
  name of a macro the character that follows the backslash and, when that character is
  a letter (\<open>str.isalpha\<close>), the whole run of letters that follows: a name is one
  character, or a run of letters. The predicate admits the empty name as well, which the
  set cleaner removes in any case. Below 256 the letters are A to Z, a to z, U+00AA,
  U+00B5, U+00BA, U+00C0 to U+00D6, U+00D8 to U+00F6 and U+00F8 to U+00FF.
\<close>

definition isalpha :: "char \<Rightarrow> bool" where
  "isalpha c =
     (let n = (of_char c :: nat)
      in (65 \<le> n \<and> n \<le> 90) \<or> (97 \<le> n \<and> n \<le> 122) \<or> n = 170 \<or> n = 181 \<or> n = 186
         \<or> (192 \<le> n \<and> n \<le> 214) \<or> (216 \<le> n \<and> n \<le> 246) \<or> (248 \<le> n \<and> n \<le> 255))"

definition parser_macroname :: "string \<Rightarrow> bool" where
  "parser_macroname name = (length name \<le> 1 \<or> list_all isalpha name)"

section \<open>File classification\<close>

text \<open>
  A path object as the attributes the program reads: its text (what an f-string prints)
  and its \<open>suffix\<close>, the empty string when the final component has no extension.
\<close>

record path =
  path_str :: string
  suffix :: string

text \<open>
  What the program emits besides its result: a line printed on standard output, or a
  warning raised through \<open>warnings.warn\<close>, which by default is reported and does not
  stop the run.
\<close>

datatype event = Printed string | Warned string

text \<open>
  The two \<open>assert\<close> statements of the program. Either failure is an
  \<open>AssertionError\<close>; the constructor says which assertion failed and carries what its
  message is formatted from: the book directory and the unit whose joined path does not
  exist, or the file that is not a markdown file.
\<close>

datatype error = PathDoesNotExist string string | NotMarkdownFile path

text \<open>The body of the inner loop of \<open>get_content_filepaths\<close> for one directory entry.\<close>

definition classify_file ::
  "path \<Rightarrow> path list \<times> path list \<times> event list \<Rightarrow> path list \<times> path list \<times> event list" where
  "classify_file file st =
     (case st of (all_md_filepaths, all_ipynb_filepaths, out) \<Rightarrow>
        if suffix file = ''.md'' then (all_md_filepaths @ [file], all_ipynb_filepaths, out)
        else if suffix file = ''.ipynb'' then (all_md_filepaths, all_ipynb_filepaths @ [file], out)
        else if suffix file = [] then
          (all_md_filepaths, all_ipynb_filepaths,
           out @ [Printed (''Ignoring hidden file '' @ path_str file)])
        else
          (all_md_filepaths, all_ipynb_filepaths,
           out @ [Warned (''Non-hidden file type ignored: '' @ path_str file
                           @ '' is not .md or .ipynb.'')]))"

text \<open>
  The outer loop over the unit folders. \<open>iterdir book_dir unit\<close> is the file system: the
  entries of the folder \<open>book_dir / unit\<close> in the order \<open>iterdir()\<close> yields them, or
  \<open>None\<close> when that path does not exist, where the \<open>assert\<close> fails. The failure
  keeps what was printed and warned before it.
\<close>

fun get_content_filepaths_loop ::
  "(string \<Rightarrow> string \<Rightarrow> path list option) \<Rightarrow> string \<Rightarrow> string list
     \<Rightarrow> path list \<times> path list \<times> event list
     \<Rightarrow> error \<times> event list + path list \<times> path list \<times> event list" where
  "get_content_filepaths_loop iterdir book_dir [] st = Inr st"
| "get_content_filepaths_loop iterdir book_dir (unit # units) st =
     (case iterdir book_dir unit of
        None \<Rightarrow> Inl (PathDoesNotExist book_dir unit, snd (snd st))
      | Some files \<Rightarrow> get_content_filepaths_loop iterdir book_dir units (fold classify_file files st))"

text \<open>
  \<open>get_content_filepaths\<close> returns the two lists; the third component is the trace of
  what was printed and warned on the way.
\<close>

definition get_content_filepaths ::
  "(string \<Rightarrow> string \<Rightarrow> path list option) \<Rightarrow> string \<Rightarrow> string list
     \<Rightarrow> error \<times> event list + path list \<times> path list \<times> event list" where
  "get_content_filepaths iterdir book_dir unit_list =
     get_content_filepaths_loop iterdir book_dir unit_list ([], [], [])"

section \<open>Aggregation over files\<close>

text \<open>
  The parser (\<open>get_nodelist\<close>) and the readers are parameters: \<open>read_text file\<close> is the
  text of a markdown file, \<open>read_cells file\<close> the source texts of a notebook's cells in
  cell order.
\<close>

fun process_md_files_loop ::
  "(path \<Rightarrow> string) \<Rightarrow> (string \<Rightarrow> node list) \<Rightarrow> path list \<Rightarrow> string set \<Rightarrow> error + string set" where
  "process_md_files_loop read_text get_nodelist [] all_md_macros = Inr all_md_macros"
| "process_md_files_loop read_text get_nodelist (file # rest) all_md_macros =
     (if suffix file \<noteq> ''.md''
      then Inl (NotMarkdownFile file)
      else
        let file_text = read_text file;
            node_list = get_nodelist file_text;
            nb_macros = get_macros node_list
        in process_md_files_loop read_text get_nodelist rest (all_md_macros \<union> nb_macros))"

definition process_md_files ::
  "(path \<Rightarrow> string) \<Rightarrow> (string \<Rightarrow> node list) \<Rightarrow> path list \<Rightarrow> error + string set" where
  "process_md_files read_text get_nodelist md_filelist =
     process_md_files_loop read_text get_nodelist md_filelist {}"

definition process_ipynb_files ::
  "(path \<Rightarrow> string list) \<Rightarrow> (string \<Rightarrow> node list) \<Rightarrow> path list \<Rightarrow> string set" where
  "process_ipynb_files read_cells get_nodelist ipynb_filelist =
     fold (\<lambda>file all_nb_macros.
             let nb_text = fold (\<lambda>cell_source nb_text. nb_text @ cell_source) (read_cells file) [];
                 base_nodelist = get_nodelist nb_text;
                 nb_macros = get_macros base_nodelist
             in all_nb_macros \<union> nb_macros)
          ipynb_filelist {}"

text \<open>The three lines of \<open>main\<close> that build \<open>all_macros_used\<close>.\<close>

definition all_macros_used ::
  "(path \<Rightarrow> string) \<Rightarrow> (path \<Rightarrow> string list) \<Rightarrow> (string \<Rightarrow> node list)
     \<Rightarrow> path list \<Rightarrow> path list \<Rightarrow> error + string set" where
  "all_macros_used read_text read_cells get_nodelist md_files ipynb_files =
     (case process_md_files read_text get_nodelist md_files of
        Inl e \<Rightarrow> Inl e
      | Inr md_macros \<Rightarrow>
          Inr (({} \<union> md_macros) \<union> process_ipynb_files read_cells get_nodelist ipynb_files))"

section \<open>Persistence\<close>

text \<open>\<open>join sep xs\<close> is Python's \<open>sep.join(xs)\<close>.\<close>

fun join :: "string \<Rightarrow> string list \<Rightarrow> string" where
  "join sep [] = []"
| "join sep [x] = x"
| "join sep (x # y # ys) = x @ sep @ join sep (y # ys)"

text \<open>
  \<open>write_file\<close>: the files are a map from name to content, and opening with mode
  \<open>"w"\<close> replaces the content. Python iterates a set in an order the program does not
  choose; \<open>order\<close> gives that sequence for the set.
\<close>

definition write_file ::
  "(string set \<Rightarrow> string list) \<Rightarrow> string set \<Rightarrow> (string \<rightharpoonup> string) \<Rightarrow> (string \<rightharpoonup> string)" where
  "write_file order macros files = files(''macros_used.txt'' \<mapsto> join [CHR 0x0A] (order macros))"

text \<open>
  The lines of a text: \<open>split_sep c s\<close> is Python's \<open>s.split(c)\<close> for a one-character
  separator, so the lines of a content are \<open>split_sep (CHR 0x0A) content\<close>.
\<close>

fun split_sep :: "char \<Rightarrow> string \<Rightarrow> string list" where
  "split_sep c [] = [[]]"
| "split_sep c (x # xs) =
     (if x = c then [] # split_sep c xs
      else (case split_sep c xs of [] \<Rightarrow> [[x]] | w # ws \<Rightarrow> (x # w) # ws))"

section \<open>Properties of the macro collector\<close>

declare get_macros.simps [simp del]

lemma fold_loop_acc:
  "fold (\<lambda>node macros.
           if is_macro node then insert (macroname node) macros
           else if has_nodelist node then macros \<union> get_macros (nodelist node)
           else macros) node_list acc
   = acc \<union> (\<Union>node\<in>set node_list. node_macros node)"
  by (induction node_list arbitrary: acc) (auto simp: node_macros_def)

lemma get_macros_conv: "get_macros node_list = (\<Union>node\<in>set node_list. node_macros node)"
  by (subst get_macros.simps) (simp add: fold_loop_acc)

lemma get_macros_Nil: "get_macros [] = {}"
  by (simp add: get_macros_conv)

lemma get_macros_Cons: "get_macros (node # rest) = node_macros node \<union> get_macros rest"
  by (simp add: get_macros_conv)

lemma get_macros_append: "get_macros (xs @ ys) = get_macros xs \<union> get_macros ys"
  by (simp add: get_macros_conv Un_commute)

lemma node_macros_simps:
  "node_macros (LatexMathNode d body) = get_macros body"
  "node_macros (LatexMacroNode name args) = {name}"
  "node_macros (LatexGroupNode body) = {}"
  "node_macros (LatexSpecialsNode s) = {}"
  "node_macros (LatexCharsNode s) = {}"
  "node_macros (LatexEnvironmentNode ename body args) = get_macros body"
  by (simp_all add: node_macros_def)

lemma get_macros_eq_ref:
  "get_macros node_list = get_macros_ref node_list"
  "node_macros node = node_contribution node"
  by (induction node_list and node rule: get_macros_ref_node_contribution.induct)
     (simp_all add: get_macros_Nil get_macros_Cons node_macros_simps)

lemma node_macros_visited: "node_macros node = set (visited_macro_nodes node)"
  by (induction node) (simp_all add: node_macros_simps get_macros_conv)

lemma get_macros_visited: "get_macros node_list = set (tree_visited_macro_nodes node_list)"
  by (simp add: get_macros_conv tree_visited_macro_nodes_def node_macros_visited)

lemma visited_le_all: "length (visited_macro_nodes node) \<le> length (macro_nodes node)"
proof (induction node)
  case (LatexMathNode d body)
  then show ?case by (simp add: length_concat sum_list_mono)
next
  case (LatexEnvironmentNode name body args)
  then have "sum_list (map (length \<circ> visited_macro_nodes) body)
             \<le> sum_list (map (length \<circ> macro_nodes) body)"
    by (intro sum_list_mono) simp
  then show ?case by (simp add: length_concat comp_def)
qed simp_all

lemma tree_visited_le_all:
  "length (tree_visited_macro_nodes node_list) \<le> length (tree_macro_nodes node_list)"
  unfolding tree_visited_macro_nodes_def tree_macro_nodes_def length_concat
  by (simp add: sum_list_mono visited_le_all comp_def)

lemma finite_get_macros: "finite (get_macros node_list)"
  by (simp add: get_macros_visited)

lemma has_nodelist_size: "has_nodelist node \<Longrightarrow> size_list size (nodelist node) < size node"
  by (cases node) simp_all

lemma child_list_smaller:
  assumes "node \<in> set node_list" and "has_nodelist node"
  shows "size_list size (nodelist node) < size_list size node_list"
proof -
  from assms(2) have "size_list size (nodelist node) < size node"
    by (rule has_nodelist_size)
  moreover from assms(1) have "size node \<le> size_list size node_list"
    by (simp add: size_list_estimation')
  ultimately show ?thesis by simp
qed

lemma get_macros_dom_all: "get_macros_dom node_list"
proof (induction node_list rule: measure_induct_rule [where f = "size_list size"])
  case (less xs)
  show ?case
  proof (rule accpI)
    fix ys assume "get_macros_rel ys xs"
    then obtain node where "node \<in> set xs" "has_nodelist node" "ys = nodelist node"
      by (auto elim: get_macros_rel.cases)
    then have "size_list size ys < size_list size xs"
      by (simp add: child_list_smaller)
    then show "get_macros_dom ys" by (rule less.IH)
  qed
qed

lemma get_macros_rel_iff:
  "get_macros_rel child node_list \<longleftrightarrow>
     (\<exists>node\<in>set node_list. has_nodelist node \<and> child = nodelist node)"
proof
  assume "get_macros_rel child node_list"
  then show "\<exists>node\<in>set node_list. has_nodelist node \<and> child = nodelist node"
    by (auto elim: get_macros_rel.cases)
next
  assume "\<exists>node\<in>set node_list. has_nodelist node \<and> child = nodelist node"
  then obtain node where n: "node \<in> set node_list" "has_nodelist node" "child = nodelist node"
    by blast
  from n(2) have "\<not> is_macro node" by (cases node) simp_all
  with n show "get_macros_rel child node_list"
    by (auto intro: get_macros_rel.intros)
qed

text \<open>
  C1 (as the code has it). An environment node contributes the macros of its body and
  nothing else: the collector never reads the environment's name. For the node list of
  \<open>\begin{align}\delta\end{align}\<close> the result is \<open>{delta}\<close>.
\<close>

theorem get_macros_environment:
  "get_macros (LatexEnvironmentNode name body args # rest) = get_macros body \<union> get_macros rest
   \<and> get_macros [LatexEnvironmentNode ''align'' [LatexMacroNode ''delta'' []] []] = {''delta''}"
  by (simp add: get_macros_Nil get_macros_Cons node_macros_simps)

text \<open>
  C1 as stated fails: for that node list the result is not \<open>{align, delta}\<close>, the name
  \<open>align\<close> is not collected.
\<close>

theorem get_macros_environment_name_counterexample:
  "''align'' \<notin> get_macros [LatexEnvironmentNode ''align'' [LatexMacroNode ''delta'' []] []]
   \<and> get_macros [LatexEnvironmentNode ''align'' [LatexMacroNode ''delta'' []] []]
       \<noteq> {''align'', ''delta''}"
  by (simp add: get_macros_Nil get_macros_Cons node_macros_simps)

text \<open>
  C2. On every node list \<open>get_macros\<close> returns the set of the reference definition:
  empty for the empty list, otherwise the union of the nodes' contributions (the name of
  a macro node, the collected macros of the child list of a math or environment node,
  nothing for any other node).
\<close>

theorem get_macros_refines_reference: "get_macros node_list = get_macros_ref node_list"
  by (rule get_macros_eq_ref(1))

text \<open>
  C4 (as the code has it). The collected set has at most as many elements as the tree
  has macro nodes, and exactly as many as there are distinct names among the macro nodes
  that lie at the top level or inside math and environment bodies (the macro nodes inside
  groups and inside arguments are not counted).
\<close>

theorem get_macros_card:
  "card (get_macros node_list) \<le> length (tree_macro_nodes node_list)
   \<and> card (get_macros node_list) = card (set (tree_visited_macro_nodes node_list))"
proof -
  have "card (get_macros node_list) \<le> length (tree_visited_macro_nodes node_list)"
    by (simp add: get_macros_visited card_length)
  then show ?thesis using tree_visited_le_all [of node_list]
    by (simp add: get_macros_visited)
qed

text \<open>
  C4 as stated fails: the tree of \<open>\section{\gamma}\<close> contains the two macro nodes
  \<open>section\<close> and \<open>gamma\<close>, with two distinct names, and the collected set has one
  element.
\<close>

theorem get_macros_card_counterexample:
  "card (get_macros [LatexMacroNode ''section'' [LatexGroupNode [LatexMacroNode ''gamma'' []]]])
   \<noteq> card (set (tree_macro_nodes
         [LatexMacroNode ''section'' [LatexGroupNode [LatexMacroNode ''gamma'' []]]]))"
  by (simp add: get_macros_Nil get_macros_Cons node_macros_simps tree_macro_nodes_def)

text \<open>
  C5. A macro node contributes its name and nothing else, whatever its arguments are; for
  the node list of \<open>\section{\gamma}\<close> the result is \<open>{section}\<close> and \<open>gamma\<close> is
  not collected.
\<close>

theorem get_macros_macro_arguments:
  "get_macros (LatexMacroNode name args # rest) = insert name (get_macros rest)
   \<and> get_macros [LatexMacroNode ''section'' [LatexGroupNode [LatexMacroNode ''gamma'' []]]]
       = {''section''}
   \<and> ''gamma'' \<notin> get_macros
        [LatexMacroNode ''section'' [LatexGroupNode [LatexMacroNode ''gamma'' []]]]"
  by (simp add: get_macros_Nil get_macros_Cons node_macros_simps)

text \<open>
  C8. The recursion of \<open>get_macros\<close> terminates on every node list: every list is in the
  domain of the function, which is the part of its call relation that is well founded.
  The calls made from the call on a list are exactly one for each math or environment
  node of the list, on that node's child list, and every such child list is strictly
  smaller than the list.
\<close>

theorem get_macros_terminates:
  "get_macros_dom node_list
   \<and> (get_macros_rel child node_list \<longleftrightarrow>
        (\<exists>node\<in>set node_list. has_nodelist node \<and> child = nodelist node))
   \<and> (\<forall>node\<in>set node_list. has_nodelist node \<longrightarrow>
        size_list size (nodelist node) < size_list size node_list)"
proof (intro conjI ballI impI)
  show "get_macros_dom node_list" by (rule get_macros_dom_all)
  show "get_macros_rel child node_list \<longleftrightarrow>
        (\<exists>node\<in>set node_list. has_nodelist node \<and> child = nodelist node)"
    by (rule get_macros_rel_iff)
next
  fix node assume "node \<in> set node_list" "has_nodelist node"
  then show "size_list size (nodelist node) < size_list size node_list"
    by (rule child_list_smaller)
qed

theorem get_macros_terminates_witness:
  "get_macros_dom [LatexMathNode ''inline'' [LatexMacroNode ''alpha'' []]]
   \<and> get_macros_rel [LatexMacroNode ''alpha'' []]
        [LatexMathNode ''inline'' [LatexMacroNode ''alpha'' []]]
   \<and> size_list size [LatexMacroNode ''alpha'' []]
       < size_list size [LatexMathNode ''inline'' [LatexMacroNode ''alpha'' []]]"
proof -
  let ?L = "[LatexMathNode ''inline'' [LatexMacroNode ''alpha'' []]]"
  let ?c = "[LatexMacroNode ''alpha'' []]"
  have "\<exists>node\<in>set ?L. has_nodelist node \<and> ?c = nodelist node" by simp
  with get_macros_terminates [of ?L ?c] show ?thesis by simp
qed

section \<open>Properties of the set cleaner\<close>

lemma dropWhile_keeps_witness:
  "(\<exists>x\<in>set (dropWhile P xs). \<not> P x) \<longleftrightarrow> (\<exists>x\<in>set xs. \<not> P x)"
  by (induction xs) auto

lemma strip_nonempty_iff: "strip s \<noteq> [] \<longleftrightarrow> (\<exists>c\<in>set s. \<not> isspace c)"
proof -
  have "strip s \<noteq> [] \<longleftrightarrow> (\<exists>c\<in>set (dropWhile isspace s). \<not> isspace c)"
    unfolding strip_def by (simp add: dropWhile_eq_Nil_conv)
  then show ?thesis by (simp only: dropWhile_keeps_witness)
qed

text \<open>
  C3 (as the code has it). \<open>final_clean\<close> is idempotent, and it never removes a string
  that has at least one character that is not whitespace (a string that is nonempty after
  trimming) and is absent from the denylist.
\<close>

theorem final_clean_idempotent_keeps:
  "final_clean (final_clean S) = final_clean S
   \<and> (x \<in> S \<and> (\<exists>c\<in>set x. \<not> isspace c) \<and> x \<notin> set problem_list \<longrightarrow> x \<in> final_clean S)"
proof
  show "final_clean (final_clean S) = final_clean S"
    unfolding final_clean_def by blast
  show "x \<in> S \<and> (\<exists>c\<in>set x. \<not> isspace c) \<and> x \<notin> set problem_list \<longrightarrow> x \<in> final_clean S"
    unfolding final_clean_def by (simp add: strip_nonempty_iff)
qed

theorem final_clean_idempotent_keeps_witness:
  "final_clean (final_clean {''alpha'', '' ''}) = final_clean {''alpha'', '' ''}
   \<and> ''alpha'' \<in> {''alpha'', '' ''} \<and> (\<exists>c\<in>set ''alpha''. \<not> isspace c)
   \<and> ''alpha'' \<notin> set problem_list \<and> ''alpha'' \<in> final_clean {''alpha'', '' ''}"
proof -
  have h: "''alpha'' \<in> {''alpha'', '' ''} \<and> (\<exists>c\<in>set ''alpha''. \<not> isspace c)
           \<and> ''alpha'' \<notin> set problem_list"
    by (simp add: problem_list_def isspace_def)
  with final_clean_idempotent_keeps [of "{''alpha'', '' ''}" "''alpha''"] show ?thesis by blast
qed

text \<open>
  C3 as stated fails: the string of one space is nonempty and absent from the denylist,
  and \<open>final_clean\<close> removes it.
\<close>

theorem final_clean_removes_blank_counterexample:
  "'' '' \<noteq> [] \<and> '' '' \<notin> set problem_list \<and> '' '' \<in> {'' ''} \<and> '' '' \<notin> final_clean {'' ''}"
  by (simp add: final_clean_def problem_list_def strip_def isspace_def)

text \<open>
  C6. \<open>final_clean\<close> returns exactly the elements that are nonempty after trimming
  surrounding whitespace, that is, have a character that is not whitespace, and differ,
  as whole strings, from each of the six denylist tokens. Cleaning
  \<open>{alpha, {, (empty), n, beta}\<close> gives \<open>{alpha, beta}\<close>; a blank name and a name of
  a tab and a newline are removed, while names that only contain or begin with a
  denylist token stay, and a kept name is returned untrimmed.
\<close>

theorem final_clean_exact:
  "final_clean S =
     {x \<in> S. (\<exists>c\<in>set x. \<not> isspace c) \<and> x \<noteq> ''{'' \<and> x \<noteq> ''}'' \<and> x \<noteq> ''t'' \<and> x \<noteq> ''n''
              \<and> x \<noteq> ''&'' \<and> x \<noteq> [CHR 0x5C]}
   \<and> final_clean {''alpha'', ''{'', [], ''n'', ''beta''} = {''alpha'', ''beta''}
   \<and> final_clean {'' '', [CHR 0x09, CHR 0x0A], '' nu '', ''tn'', ''theta'', ''t''}
       = {'' nu '', ''tn'', ''theta''}"
proof (intro conjI)
  show "final_clean S =
     {x \<in> S. (\<exists>c\<in>set x. \<not> isspace c) \<and> x \<noteq> ''{'' \<and> x \<noteq> ''}'' \<and> x \<noteq> ''t'' \<and> x \<noteq> ''n''
              \<and> x \<noteq> ''&'' \<and> x \<noteq> [CHR 0x5C]}"
    unfolding final_clean_def strip_nonempty_iff by (auto simp: problem_list_def)
  show "final_clean {''alpha'', ''{'', [], ''n'', ''beta''} = {''alpha'', ''beta''}"
    by code_simp
  show "final_clean {'' '', [CHR 0x09, CHR 0x0A], '' nu '', ''tn'', ''theta'', ''t''}
       = {'' nu '', ''tn'', ''theta''}"
    by code_simp
qed

section \<open>Properties of the aggregation over files\<close>

lemma get_macros_concat:
  "get_macros (concat node_lists) = (\<Union>node_list\<in>set node_lists. get_macros node_list)"
  by (induction node_lists) (simp_all add: get_macros_Nil get_macros_append)

lemma process_md_files_loop_ok:
  "\<forall>file\<in>set md_filelist. suffix file = ''.md'' \<Longrightarrow>
   process_md_files_loop read_text get_nodelist md_filelist acc =
     Inr (acc \<union> get_macros (concat (map (\<lambda>file. get_nodelist (read_text file)) md_filelist)))"
proof (induction md_filelist arbitrary: acc)
  case Nil
  show ?case by (simp add: get_macros_Nil)
next
  case (Cons f rest)
  from Cons.prems have "suffix f = ''.md''" and "\<forall>file\<in>set rest. suffix file = ''.md''"
    by simp_all
  then show ?case
    by (simp add: Cons.IH get_macros_append Un_assoc)
qed

lemma fold_nb_text:
  "fold (\<lambda>cell_source nb_text. nb_text @ cell_source) cells acc = acc @ concat cells"
  by (induction cells arbitrary: acc) simp_all

lemma fold_ipynb_acc:
  "fold (\<lambda>file all_nb_macros.
             let nb_text = fold (\<lambda>cell_source nb_text. nb_text @ cell_source) (read_cells file) [];
                 base_nodelist = get_nodelist nb_text;
                 nb_macros = get_macros base_nodelist
             in all_nb_macros \<union> nb_macros) ipynb_filelist acc
   = acc \<union> get_macros (concat (map (\<lambda>file. get_nodelist (concat (read_cells file)))
                                  ipynb_filelist))"
  by (induction ipynb_filelist arbitrary: acc)
     (simp_all add: get_macros_Nil get_macros_append fold_nb_text Un_assoc)

lemma process_ipynb_files_conv:
  "process_ipynb_files read_cells get_nodelist ipynb_filelist =
     get_macros (concat (map (\<lambda>file. get_nodelist (concat (read_cells file))) ipynb_filelist))"
  unfolding process_ipynb_files_def by (subst fold_ipynb_acc) simp

lemma all_macros_used_conv:
  assumes "\<forall>file\<in>set md_files. suffix file = ''.md''"
  shows "all_macros_used read_text read_cells get_nodelist md_files ipynb_files =
     Inr (get_macros (concat (map (\<lambda>file. get_nodelist (read_text file)) md_files)
                      @ concat (map (\<lambda>file. get_nodelist (concat (read_cells file))) ipynb_files)))"
  unfolding all_macros_used_def process_md_files_def
  by (simp add: process_md_files_loop_ok [OF assms] process_ipynb_files_conv get_macros_append)

text \<open>
  C7. Collecting over a concatenation is the union of the two collections; so the union
  of the sets collected from any number of node lists is the set collected from their
  concatenation, and the aggregate the program builds over its markdown files (all with
  the markdown extension, as the file classification delivers them) and its notebook
  files equals the set collected from the single list made of all files' node lists.
\<close>

theorem get_macros_union_over_files:
  "get_macros (L1 @ L2) = get_macros L1 \<union> get_macros L2
   \<and> (\<Union>node_list\<in>set node_lists. get_macros node_list) = get_macros (concat node_lists)
   \<and> ((\<forall>file\<in>set md_files. suffix file = ''.md'') \<longrightarrow>
        all_macros_used read_text read_cells get_nodelist md_files ipynb_files =
          Inr (get_macros (concat (map (\<lambda>file. get_nodelist (read_text file)) md_files)
                 @ concat (map (\<lambda>file. get_nodelist (concat (read_cells file))) ipynb_files))))"
  using get_macros_append [of L1 L2] get_macros_concat [of node_lists]
    all_macros_used_conv [of md_files read_text read_cells get_nodelist ipynb_files]
  by simp

theorem get_macros_union_over_files_witness:
  "suffix \<lparr>path_str = ''unit1/a.md'', suffix = ''.md''\<rparr> = ''.md''
   \<and> all_macros_used (\<lambda>file. ''md text'') (\<lambda>file. [''cell one, '', ''cell two''])
        (\<lambda>text. if text = ''md text''
                  then [LatexMathNode ''inline'' [LatexMacroNode ''alpha'' []]]
                  else [LatexMathNode ''inline'' [LatexMacroNode ''beta'' []]])
        [\<lparr>path_str = ''unit1/a.md'', suffix = ''.md''\<rparr>]
        [\<lparr>path_str = ''unit1/b.ipynb'', suffix = ''.ipynb''\<rparr>]
     = Inr {''alpha'', ''beta''}"
  using get_macros_union_over_files [of "[]" "[]" "[]"
      "[\<lparr>path_str = ''unit1/a.md'', suffix = ''.md''\<rparr>]"
      "\<lambda>file. ''md text''" "\<lambda>file. [''cell one, '', ''cell two'']"
      "\<lambda>text. if text = ''md text''
                  then [LatexMathNode ''inline'' [LatexMacroNode ''alpha'' []]]
                  else [LatexMathNode ''inline'' [LatexMacroNode ''beta'' []]]"
      "[\<lparr>path_str = ''unit1/b.ipynb'', suffix = ''.ipynb''\<rparr>]"]
  by (simp add: get_macros_Nil get_macros_Cons node_macros_simps insert_commute)

section \<open>Properties of the file classification\<close>

lemma fold_classify_file:
  "fold classify_file files (md, nb, out) =
     (md @ filter (\<lambda>f. suffix f = ''.md'') files,
      nb @ filter (\<lambda>f. suffix f = ''.ipynb'') files,
      out @ concat (map (\<lambda>f.
              if suffix f = ''.md'' \<or> suffix f = ''.ipynb'' then []
              else if suffix f = [] then [Printed (''Ignoring hidden file '' @ path_str f)]
              else [Warned (''Non-hidden file type ignored: '' @ path_str f
                             @ '' is not .md or .ipynb.'')]) files))"
  by (induction files arbitrary: md nb out) (simp_all add: classify_file_def)

lemma get_content_filepaths_loop_ok:
  assumes "\<forall>unit\<in>set unit_list. iterdir book_dir unit \<noteq> None"
  shows "get_content_filepaths_loop iterdir book_dir unit_list (md, nb, out) =
     Inr (md @ filter (\<lambda>f. suffix f = ''.md'')
                 (concat (map (\<lambda>unit. the (iterdir book_dir unit)) unit_list)),
          nb @ filter (\<lambda>f. suffix f = ''.ipynb'')
                 (concat (map (\<lambda>unit. the (iterdir book_dir unit)) unit_list)),
          out @ concat (map (\<lambda>f.
              if suffix f = ''.md'' \<or> suffix f = ''.ipynb'' then []
              else if suffix f = [] then [Printed (''Ignoring hidden file '' @ path_str f)]
              else [Warned (''Non-hidden file type ignored: '' @ path_str f
                             @ '' is not .md or .ipynb.'')])
            (concat (map (\<lambda>unit. the (iterdir book_dir unit)) unit_list))))"
  using assms
proof (induction unit_list arbitrary: md nb out)
  case Nil
  show ?case by simp
next
  case (Cons unit units)
  from Cons.prems obtain files where f: "iterdir book_dir unit = Some files" by auto
  from Cons.prems have rest: "\<forall>unit\<in>set units. iterdir book_dir unit \<noteq> None" by simp
  show ?case
    using Cons.IH [OF rest] by (simp add: f fold_classify_file)
qed

text \<open>
  C9 (as the code has it). When every unit folder exists, the classification returns, in
  the order the folders list them, the files whose suffix is \<open>.md\<close> as the markdown
  list and those whose suffix is \<open>.ipynb\<close> as the notebook list. Neither produces any
  output. A file without suffix is left out of both lists with a line
  \<open>Ignoring hidden file ...\<close> printed on standard output and no warning; a file with
  any other suffix is left out with a warning, and the run continues, so the markdown and
  notebook files of the same folder are still returned.
\<close>

theorem get_content_filepaths_classifies:
  assumes "\<forall>unit\<in>set unit_list. iterdir book_dir unit \<noteq> None"
    and "files = concat (map (\<lambda>unit. the (iterdir book_dir unit)) unit_list)"
  shows "get_content_filepaths iterdir book_dir unit_list =
     Inr (filter (\<lambda>f. suffix f = ''.md'') files,
          filter (\<lambda>f. suffix f = ''.ipynb'') files,
          concat (map (\<lambda>f.
              if suffix f = ''.md'' \<or> suffix f = ''.ipynb'' then []
              else if suffix f = [] then [Printed (''Ignoring hidden file '' @ path_str f)]
              else [Warned (''Non-hidden file type ignored: '' @ path_str f
                             @ '' is not .md or .ipynb.'')]) files))"
  unfolding get_content_filepaths_def assms(2)
  using get_content_filepaths_loop_ok [where iterdir = iterdir and book_dir = book_dir
      and unit_list = unit_list and md = "[]" and nb = "[]" and out = "[]"] assms(1)
  by simp

theorem get_content_filepaths_classifies_witness:
  "(\<lambda>book_dir unit. Some [\<lparr>path_str = ''book/unit1/a.md'', suffix = ''.md''\<rparr>,
                            \<lparr>path_str = ''book/unit1/notes.txt'', suffix = ''.txt''\<rparr>,
                            \<lparr>path_str = ''book/unit1/README'', suffix = []\<rparr>,
                            \<lparr>path_str = ''book/unit1/b.ipynb'', suffix = ''.ipynb''\<rparr>])
      ''book'' ''unit1'' \<noteq> None
   \<and> get_content_filepaths
        (\<lambda>book_dir unit. Some [\<lparr>path_str = ''book/unit1/a.md'', suffix = ''.md''\<rparr>,
                                \<lparr>path_str = ''book/unit1/notes.txt'', suffix = ''.txt''\<rparr>,
                                \<lparr>path_str = ''book/unit1/README'', suffix = []\<rparr>,
                                \<lparr>path_str = ''book/unit1/b.ipynb'', suffix = ''.ipynb''\<rparr>])
        ''book'' [''unit1'']
     = Inr ([\<lparr>path_str = ''book/unit1/a.md'', suffix = ''.md''\<rparr>],
            [\<lparr>path_str = ''book/unit1/b.ipynb'', suffix = ''.ipynb''\<rparr>],
            [Warned ''Non-hidden file type ignored: book/unit1/notes.txt is not .md or .ipynb.'',
             Printed ''Ignoring hidden file book/unit1/README''])"
  using get_content_filepaths_classifies
    [where iterdir = "\<lambda>book_dir unit.
         Some [\<lparr>path_str = ''book/unit1/a.md'', suffix = ''.md''\<rparr>,
               \<lparr>path_str = ''book/unit1/notes.txt'', suffix = ''.txt''\<rparr>,
               \<lparr>path_str = ''book/unit1/README'', suffix = []\<rparr>,
               \<lparr>path_str = ''book/unit1/b.ipynb'', suffix = ''.ipynb''\<rparr>]"
       and book_dir = "''book''" and unit_list = "[''unit1'']", OF _ refl]
  by simp

text \<open>
  C9 as stated fails: a file without extension is not skipped silently, the skip is
  reported on standard output.
\<close>

theorem get_content_filepaths_hidden_not_silent_counterexample:
  "get_content_filepaths
      (\<lambda>book_dir unit. Some [\<lparr>path_str = ''book/unit1/README'', suffix = []\<rparr>])
      ''book'' [''unit1'']
     = Inr ([], [], [Printed ''Ignoring hidden file book/unit1/README''])
   \<and> get_content_filepaths
      (\<lambda>book_dir unit. Some [\<lparr>path_str = ''book/unit1/README'', suffix = []\<rparr>])
      ''book'' [''unit1'']
     \<noteq> Inr ([], [], [])"
  by (simp add: get_content_filepaths_def classify_file_def)

section \<open>Properties of the persistence step\<close>

lemma split_sep_no_sep: "c \<notin> set s \<Longrightarrow> split_sep c s = [s]"
  by (induction s) auto

lemma split_sep_append: "c \<notin> set s \<Longrightarrow> split_sep c (s @ c # rest) = s # split_sep c rest"
  by (induction s) auto

lemma split_sep_join:
  "xs \<noteq> [] \<Longrightarrow> \<forall>m\<in>set xs. c \<notin> set m \<Longrightarrow> split_sep c (join [c] xs) = xs"
proof (induction "[c]" xs rule: join.induct)
  case 1
  then show ?case by simp
next
  case (2 x)
  then show ?case by (simp add: split_sep_no_sep)
next
  case (3 x y ys)
  then show ?case by (simp add: split_sep_append)
qed

lemma join_ends_with_last: "xs \<noteq> [] \<Longrightarrow> \<exists>pre. join sep xs = pre @ last xs"
proof (induction sep xs rule: join.induct)
  case (3 sep x y ys)
  then obtain pre where "join sep (y # ys) = pre @ last (y # ys)" by auto
  then have "join sep (x # y # ys) = (x @ sep @ pre) @ last (x # y # ys)" by simp
  then show ?case by blast
qed simp_all

lemma join_last:
  assumes "xs \<noteq> []" "last xs \<noteq> []"
  shows "join sep xs \<noteq> [] \<and> last (join sep xs) = last (last xs)"
proof -
  from join_ends_with_last [OF assms(1)] obtain pre where "join sep xs = pre @ last xs" by blast
  with assms(2) show ?thesis by simp
qed

lemma join_names_lines:
  assumes "distinct xs" and "\<forall>m\<in>set xs. m \<noteq> [] \<and> c \<notin> set m"
  shows "(join [c] xs = [] \<or> last (join [c] xs) \<noteq> c)
     \<and> (xs \<noteq> [] \<longrightarrow> split_sep c (join [c] xs) = xs
                       \<and> length (split_sep c (join [c] xs)) = card (set xs))
     \<and> (xs = [] \<longrightarrow> join [c] xs = [])"
proof (cases "xs = []")
  case True
  then show ?thesis by simp
next
  case False
  from assms(2) have nl: "\<forall>m\<in>set xs. c \<notin> set m" by simp
  from False have "last xs \<in> set xs" by (rule last_in_set)
  with assms(2) have lne: "last xs \<noteq> []" and lnl: "c \<notin> set (last xs)" by auto
  from join_last [OF False lne, of "[c]"] lnl lne
  have e: "last (join [c] xs) \<noteq> c"
    by (metis last_in_set)
  have s: "split_sep c (join [c] xs) = xs"
    using False nl by (rule split_sep_join)
  have k: "length xs = card (set xs)"
    using assms(1) by (simp add: distinct_card)
  from e s k False show ?thesis by simp
qed

lemma isspace_newline: "isspace (CHR 0x0A)"
  by (simp add: isspace_def)

lemma isalpha_not_newline: "isalpha c \<Longrightarrow> c \<noteq> CHR 0x0A"
  by (auto simp: isalpha_def)

lemma cleaned_parser_name:
  assumes "parser_macroname m" and "m \<in> final_clean raw"
  shows "m \<noteq> [] \<and> CHR 0x0A \<notin> set m"
proof -
  from assms(2) have "strip m \<noteq> []" by (simp add: final_clean_def)
  then obtain c where c: "c \<in> set m" "\<not> isspace c"
    unfolding strip_nonempty_iff by blast
  from c(1) have ne: "m \<noteq> []" by auto
  from assms(1) ne have "length m = 1 \<or> list_all isalpha m"
    by (cases m) (auto simp: parser_macroname_def)
  then have "CHR 0x0A \<notin> set m"
  proof
    assume "length m = 1"
    then obtain d where "m = [d]" by (cases m) auto
    with c have "m = [c]" by simp
    with c(2) show ?thesis using isspace_newline by auto
  next
    assume "list_all isalpha m"
    then show ?thesis using isalpha_not_newline by (auto simp: list_all_iff)
  qed
  with ne show ?thesis by simp
qed

text \<open>
  C10. The macro set that reaches the persistence step is the cleaned set of names the
  parser yielded. For every such set the file \<open>macros_used.txt\<close> receives exactly the
  names, in the order the set is iterated, joined by single newline characters; the
  content never ends with a newline character; for a nonempty set its lines are exactly
  the names, so the number of lines is the number of names; for the empty set the
  content is the empty string.
\<close>

theorem write_file_lines:
  assumes "\<forall>m\<in>raw. parser_macroname m"
    and "distinct (order (final_clean raw))"
    and "set (order (final_clean raw)) = final_clean raw"
  shows "\<exists>content. write_file order (final_clean raw) files ''macros_used.txt'' = Some content
     \<and> content = join [CHR 0x0A] (order (final_clean raw))
     \<and> (content = [] \<or> last content \<noteq> CHR 0x0A)
     \<and> (final_clean raw \<noteq> {} \<longrightarrow> split_sep (CHR 0x0A) content = order (final_clean raw)
                           \<and> length (split_sep (CHR 0x0A) content) = card (final_clean raw))
     \<and> (final_clean raw = {} \<longrightarrow> content = [])"
proof -
  have "final_clean raw \<subseteq> raw" by (auto simp: final_clean_def)
  with assms(1) have "\<forall>m\<in>final_clean raw. m \<noteq> [] \<and> CHR 0x0A \<notin> set m"
    using cleaned_parser_name by blast
  with assms(3) have names: "\<forall>m\<in>set (order (final_clean raw)). m \<noteq> [] \<and> CHR 0x0A \<notin> set m"
    by simp
  let ?xs = "order (final_clean raw)"
  let ?content = "join [CHR 0x0A] ?xs"
  have empty_iff: "?xs = [] \<longleftrightarrow> final_clean raw = {}"
    using assms(3) by auto
  have card_eq: "card (set ?xs) = card (final_clean raw)"
    by (simp only: assms(3))
  from join_names_lines [OF assms(2) names]
  have a: "?content = [] \<or> last ?content \<noteq> CHR 0x0A"
    and b: "?xs \<noteq> [] \<longrightarrow> split_sep (CHR 0x0A) ?content = ?xs
              \<and> length (split_sep (CHR 0x0A) ?content) = card (set ?xs)"
    and c: "?xs = [] \<longrightarrow> ?content = []"
    by blast+
  have w: "write_file order (final_clean raw) files ''macros_used.txt'' = Some ?content"
    by (simp add: write_file_def)
  from b empty_iff card_eq
  have b': "final_clean raw \<noteq> {} \<longrightarrow> split_sep (CHR 0x0A) ?content = ?xs
              \<and> length (split_sep (CHR 0x0A) ?content) = card (final_clean raw)"
    by metis
  from c empty_iff have c': "final_clean raw = {} \<longrightarrow> ?content = []" by blast
  from w a b' c' show ?thesis by blast
qed

theorem write_file_lines_witness:
  "parser_macroname ''alpha'' \<and> parser_macroname ''beta'' \<and> parser_macroname ''{''
   \<and> parser_macroname [CHR 0x0A]
   \<and> final_clean {''alpha'', ''beta'', ''{'', [CHR 0x0A]} = {''alpha'', ''beta''}
   \<and> distinct [''alpha'', ''beta''] \<and> set [''alpha'', ''beta''] = {''alpha'', ''beta''}
   \<and> write_file (\<lambda>macros. [''alpha'', ''beta'']) (final_clean {''alpha'', ''beta'', ''{'', [CHR 0x0A]})
        Map.empty ''macros_used.txt''
       = Some (''alpha'' @ [CHR 0x0A] @ ''beta'')
   \<and> last (''alpha'' @ [CHR 0x0A] @ ''beta'') \<noteq> CHR 0x0A
   \<and> split_sep (CHR 0x0A) (''alpha'' @ [CHR 0x0A] @ ''beta'') = [''alpha'', ''beta'']"
proof -
  have p: "\<forall>m\<in>{''alpha'', ''beta'', ''{'', [CHR 0x0A]}. parser_macroname m"
    by (simp add: parser_macroname_def isalpha_def)
  have fc: "final_clean {''alpha'', ''beta'', ''{'', [CHR 0x0A]} = {''alpha'', ''beta''}"
    by code_simp
  have d: "distinct ((\<lambda>macros. [''alpha'', ''beta''])
             (final_clean {''alpha'', ''beta'', ''{'', [CHR 0x0A]}))"
    by simp
  have e: "set ((\<lambda>macros. [''alpha'', ''beta''])
             (final_clean {''alpha'', ''beta'', ''{'', [CHR 0x0A]}))
           = final_clean {''alpha'', ''beta'', ''{'', [CHR 0x0A]}"
    by (simp add: fc)
  from write_file_lines [of "{''alpha'', ''beta'', ''{'', [CHR 0x0A]}"
      "\<lambda>macros. [''alpha'', ''beta'']" Map.empty, OF p d e]
  show ?thesis using p fc by (simp add: write_file_def)
qed

end
